theory Spec2Isabelle
  imports Complex_Main "HOL-Library.AList" "HOL-Library.Multiset"
begin

section \<open>Numbers\<close>

text \<open>
  Money amounts are JavaScript numbers. The model takes the finite ones as exact
  rationals, so a statement proved here is a statement about the arithmetic the code
  asks for, without the rounding of binary floating point. The one non-finite value the
  ledger code can produce from finite inputs is \<open>NaN\<close> (reading a missing property
  gives \<open>undefined\<close>, and \<open>undefined - x\<close> is \<open>NaN\<close>), so balances are
  values of \<open>jsnum\<close>.
\<close>

datatype jsnum = Num rat | NaN

fun jsadd :: "jsnum \<Rightarrow> rat \<Rightarrow> jsnum" where
  "jsadd (Num a) b = Num (a + b)"
| "jsadd NaN b = NaN"

fun jssub :: "jsnum \<Rightarrow> rat \<Rightarrow> jsnum" where
  "jssub (Num a) b = Num (a - b)"
| "jssub NaN b = NaN"

text \<open>\<open>x > c\<close> and \<open>x < c\<close> in JavaScript: every comparison with \<open>NaN\<close> is false.\<close>

fun jsgt :: "jsnum \<Rightarrow> rat \<Rightarrow> bool" where
  "jsgt (Num a) c = (a > c)"
| "jsgt NaN c = False"


text \<open>
  \<open>parseFloat(x.toFixed(2))\<close>: \<open>toFixed\<close> takes the sign off, picks the integer
  \<open>n\<close> with \<open>n / 100\<close> closest to the magnitude, the larger one on a tie, and puts the
  sign back. So it rounds to cents, halves away from zero. (From \<open>10^21\<close> on
  \<open>toFixed\<close> answers in exponent notation and \<open>parseFloat\<close> reads the same number
  back; a double that large is a whole number, which rounding to cents leaves alone too.)
\<close>

definition toFixed2 :: "rat \<Rightarrow> rat" where
  "toFixed2 x =
     (if x < 0 then - (of_int \<lfloor>(- x) * 100 + 1 / 2\<rfloor> / 100)
      else of_int \<lfloor>x * 100 + 1 / 2\<rfloor> / 100)"

section \<open>Splitting an amount: \<open>computeSplits\<close>\<close>

record split =
  personId :: string
  amount :: rat

text \<open>
  The failures of \<open>computeSplits\<close>, one constructor per message of the source, with the
  numbers the message shows: \<open>SumMismatch actual expected\<close> is
  "Sum of amounts must equal total. Currently: ... (vs ...)", \<open>PercentOutOfRange p\<close> is
  "Total percentage must be ~100%. Currently: ...".
\<close>

datatype split_error =
    AmountsNegative
  | SumMismatch rat rat
  | PercentNegative
  | PercentOutOfRange rat
  | SharesNegative
  | ZeroShares
  | UnknownSplitType

text \<open>
  The per-participant inputs are read from the page:
  \<open>parseFloat(document.querySelector('input[name="..."]')?.value || "0")\<close>. The fields are
  \<open>type="number"\<close> inputs, whose value is either empty or a valid number, so the page is
  a map from field names to numbers: \<open>None\<close> for a missing field or an empty value,
  both of which the code reads as 0.
\<close>

type_synonym page = "string \<Rightarrow> rat option"

definition fieldValue :: "page \<Rightarrow> string \<Rightarrow> rat" where
  "fieldValue doc name = (case doc name of None \<Rightarrow> 0 | Some v \<Rightarrow> v)"

text \<open>
  Equal mode. For an empty list the source computes \<open>totalAmount / 0\<close>, which is not a
  rational, but the \<open>forEach\<close> body that would use it never runs.
\<close>

definition equalSplits :: "rat \<Rightarrow> string list \<Rightarrow> split list" where
  "equalSplits totalAmount participantIds =
     (let n = of_nat (length participantIds);
          basic = of_int \<lfloor>(totalAmount / n) * 100\<rfloor> / 100;
          remaining = totalAmount - basic * n
      in map (\<lambda>(idx, pid).
                \<lparr>personId = pid,
                 amount = toFixed2 (if idx = 0 then basic + remaining else basic)\<rparr>)
             (enumerate 0 participantIds))"

text \<open>
  The reading loop of the exact, percent and shares modes: it stops with the mode's
  "cannot be negative" error at the first negative value, and otherwise returns the
  running total and the values read, in input order.
\<close>

fun readInputs ::
  "page \<Rightarrow> string \<Rightarrow> split_error \<Rightarrow> string list \<Rightarrow> rat \<Rightarrow> (string \<times> rat) list
     \<Rightarrow> split_error + (rat \<times> (string \<times> rat) list)" where
  "readInputs doc prefix err [] acc vals = Inr (acc, vals)"
| "readInputs doc prefix err (pid # pids) acc vals =
     (let val = fieldValue doc (prefix @ pid)
      in if val < 0 then Inl err
         else readInputs doc prefix err pids (acc + val) (vals @ [(pid, val)]))"

text \<open>
  The assigning loop of the percent and shares modes (the source has it twice, with
  \<open>percent\<close> and \<open>shares\<close> as the field read): the proportional amount, replaced by
  \<open>totalAmount - sum\<close> at the last index, then rounded to cents. The source's running
  \<open>sum\<close> is \<open>assigned\<close> here, and \<open>acc\<close> in the reading loop.
\<close>

fun assignLoop ::
  "rat \<Rightarrow> rat \<Rightarrow> nat \<Rightarrow> (nat \<times> string \<times> rat) list \<Rightarrow> rat \<Rightarrow> split list \<Rightarrow> split list" where
  "assignLoop totalAmount totalWeight len [] assigned splits = splits"
| "assignLoop totalAmount totalWeight len ((idx, pid, w) # rest) assigned splits =
     (let amt = (totalAmount * w) / totalWeight;
          amt = (if idx = len - 1 then totalAmount - assigned else amt);
          amt = toFixed2 amt
      in assignLoop totalAmount totalWeight len rest (assigned + amt)
           (splits @ [\<lparr>personId = pid, amount = amt\<rparr>]))"

definition computeSplits ::
  "page \<Rightarrow> rat \<Rightarrow> string list \<Rightarrow> string \<Rightarrow> split_error + split list" where
  "computeSplits doc totalAmount participantIds splitType =
     (if splitType = ''equal'' then Inr (equalSplits totalAmount participantIds)
      else if splitType = ''exact'' then
        (case readInputs doc ''split-amount-'' AmountsNegative participantIds 0 [] of
           Inl e \<Rightarrow> Inl e
         | Inr (summed, vals) \<Rightarrow>
             if \<bar>summed - totalAmount\<bar> > 1 / 100 then Inl (SumMismatch summed totalAmount)
             else Inr (map (\<lambda>(pid, val). \<lparr>personId = pid, amount = val\<rparr>) vals))
      else if splitType = ''percent'' then
        (case readInputs doc ''split-percent-'' PercentNegative participantIds 0 [] of
           Inl e \<Rightarrow> Inl e
         | Inr (totalPercent, percents) \<Rightarrow>
             if \<bar>totalPercent - 100\<bar> > 1 / 2 then Inl (PercentOutOfRange totalPercent)
             else Inr (assignLoop totalAmount totalPercent (length percents)
                         (enumerate 0 percents) 0 []))
      else if splitType = ''shares'' then
        (case readInputs doc ''split-shares-'' SharesNegative participantIds 0 [] of
           Inl e \<Rightarrow> Inl e
         | Inr (totalShares, shares) \<Rightarrow>
             if totalShares \<le> 0 then Inl ZeroShares
             else Inr (assignLoop totalAmount totalShares (length shares)
                         (enumerate 0 shares) 0 []))
      else Inl UnknownSplitType)"


section \<open>Submitting the expense form: \<open>upsertExpenseFromForm\<close>\<close>

text \<open>
  A ledger entry as the application stores it. The fields carry the source's names with
  the prefix \<open>e_\<close> (\<open>e_amount\<close> is \<open>amount\<close>, \<open>e_type\<close> is \<open>type\<close>). The \<open>id\<close> and
  \<open>createdAt\<close> fields, which come from the clock and the random generator, are left out:
  nothing modelled here reads them. A missing \<open>payerId\<close> is the empty string and a
  missing \<open>participantSplits\<close> the empty list, which the code treats alike.
\<close>

record expense =
  e_description :: string
  e_amount :: rat
  e_date :: string
  e_payerId :: string
  e_participantSplits :: "split list"
  e_groupId :: string
  e_category :: string
  e_notes :: string
  e_type :: string

text \<open>The values the handler reads from the form, \<open>amount\<close> after \<open>parseFloat\<close>.\<close>

record expense_form =
  f_description :: string
  f_amount :: jsnum
  f_date :: string
  f_payerId :: string
  f_groupId :: string
  f_category :: string
  f_notes :: string
  f_splitType :: string
  f_participantIds :: "string list"

datatype form_error =
    DescriptionEmpty
  | AmountNotPositive
  | DateMissing
  | PayerMissing
  | NoParticipants
  | SplitRejected split_error

definition isWhite :: "char \<Rightarrow> bool" where
  "isWhite c = (c \<in> set [CHR '' '', CHR 0x09, CHR 0x0A, CHR 0x0B, CHR 0x0C, CHR 0x0D])"

text \<open>\<open>String.prototype.trim\<close>, on the ASCII white space.\<close>

definition trim :: "string \<Rightarrow> string" where
  "trim s = rev (dropWhile isWhite (rev (dropWhile isWhite s)))"

text \<open>
  The checks of the submit handler, in the source's order, up to the entry it stores.
  Each early \<open>return\<close> after writing a message is an error value.
\<close>

definition upsertExpenseFromForm :: "page \<Rightarrow> expense_form \<Rightarrow> form_error + expense" where
  "upsertExpenseFromForm doc form =
     (let description = trim (f_description form);
          groupId = f_groupId form;
          category = (if f_category form = [] then ''Other'' else f_category form);
          notes = trim (f_notes form)
      in if description = [] then Inl DescriptionEmpty
         else case f_amount form of
           NaN \<Rightarrow> Inl AmountNotPositive
         | Num amt \<Rightarrow>
             if \<not> amt > 0 then Inl AmountNotPositive
             else if f_date form = [] then Inl DateMissing
             else if f_payerId form = [] then Inl PayerMissing
             else if f_participantIds form = [] then Inl NoParticipants
             else case computeSplits doc amt (f_participantIds form) (f_splitType form) of
               Inl e \<Rightarrow> Inl (SplitRejected e)
             | Inr splits \<Rightarrow>
                 Inr \<lparr>e_description = description, e_amount = amt, e_date = f_date form,
                      e_payerId = f_payerId form, e_participantSplits = splits,
                      e_groupId = groupId, e_category = category, e_notes = notes,
                      e_type = ''expense''\<rparr>)"

section \<open>Net balances: \<open>calculateNetBalances\<close>\<close>

record person =
  p_id :: string
  p_name :: string
  p_contact :: string
  p_notes :: string
  p_isYou :: bool

text \<open>
  The \<open>balances\<close> object is an association list in insertion order, the order in which
  \<open>Object.entries\<close> lists string keys (the ids the application generates look like
  \<open>person_1700000000000_ab12cd\<close>; keys that are canonical array indices would be listed
  first, in numeric order). Assigning to a key replaces its value in place, or appends the
  key when it is new: that is \<open>AList.update\<close>.

  \<open>balances[k]\<close> read for arithmetic is \<open>NaN\<close> when the key is missing, and
  \<open>balances[k] == null\<close> holds exactly when it is missing, since every stored value is a
  number.
\<close>

type_synonym balances = "(string \<times> jsnum) list"

definition readBalance :: "balances \<Rightarrow> string \<Rightarrow> jsnum" where
  "readBalance b k = (case map_of b k of None \<Rightarrow> NaN | Some v \<Rightarrow> v)"

definition initIfNull :: "balances \<Rightarrow> string \<Rightarrow> balances" where
  "initIfNull b k = (if map_of b k = None then AList.update k (Num 0) b else b)"

text \<open>One pass of the loop body of the settlement branch.\<close>

definition settlementStep :: "string \<Rightarrow> balances \<Rightarrow> split \<Rightarrow> balances" where
  "settlementStep payerId b ps =
     (let b = AList.update payerId (jssub (readBalance b payerId) (amount ps)) b;
          b = initIfNull b (personId ps);
          b = AList.update (personId ps) (jsadd (readBalance b (personId ps)) (amount ps)) b
      in b)"

text \<open>One pass of the loop body of the normal-expense branch.\<close>

definition expenseStep :: "string \<Rightarrow> balances \<Rightarrow> split \<Rightarrow> balances" where
  "expenseStep payerId b ps =
     (let b = initIfNull b (personId ps);
          b = AList.update (personId ps) (jssub (readBalance b (personId ps)) (amount ps)) b;
          b = initIfNull b payerId;
          b = AList.update payerId (jsadd (readBalance b payerId) (amount ps)) b
      in b)"

definition applyEntry :: "balances \<Rightarrow> expense \<Rightarrow> balances" where
  "applyEntry b entry =
     (if e_payerId entry = [] \<or> e_participantSplits entry = [] then b
      else if e_type entry = ''settlement''
        then foldl (settlementStep (e_payerId entry)) b (e_participantSplits entry)
        else foldl (expenseStep (e_payerId entry)) b (e_participantSplits entry))"

text \<open>
  The source reads \<open>App.state.people\<close> and \<open>App.state.expenses\<close>; here they are the
  two arguments.
\<close>

definition calculateNetBalances :: "person list \<Rightarrow> expense list \<Rightarrow> balances" where
  "calculateNetBalances people expenses =
     foldl applyEntry (foldl (\<lambda>b p. AList.update (p_id p) (Num 0) b) [] people) expenses"

section \<open>Suggested transfers: \<open>calculateSimplifiedDebts\<close>\<close>

text \<open>An element of the \<open>creditors\<close> and \<open>debtors\<close> arrays, \<open>{id, amount}\<close>.\<close>

record party =
  c_id :: string
  c_amount :: rat

text \<open>An element of the result, \<open>{fromId, toId, amount}\<close>.\<close>

record settlement =
  fromId :: string
  toId :: string
  s_amount :: rat

text \<open>
  The first loop, over \<open>Object.entries(netBalances)\<close>. A \<open>NaN\<close> balance fails both
  comparisons and is pushed nowhere.
\<close>

fun partitionLoop :: "balances \<Rightarrow> party list \<Rightarrow> party list \<Rightarrow> party list \<times> party list" where
  "partitionLoop [] creditors debtors = (creditors, debtors)"
| "partitionLoop ((pid, NaN) # rest) creditors debtors =
     partitionLoop rest creditors debtors"
| "partitionLoop ((pid, Num balance) # rest) creditors debtors =
     (if balance > 1 / 100
        then partitionLoop rest (creditors @ [\<lparr>c_id = pid, c_amount = balance\<rparr>]) debtors
      else if balance < - (1 / 100)
        then partitionLoop rest creditors (debtors @ [\<lparr>c_id = pid, c_amount = - balance\<rparr>])
      else partitionLoop rest creditors debtors)"

text \<open>
  \<open>xs.sort((a, b) => b.amount - a.amount)\<close>: a stable sort, largest amount first.
\<close>

definition sortDescending :: "party list \<Rightarrow> party list" where
  "sortDescending xs = sort_key (\<lambda>e. - c_amount e) xs"

text \<open>
  The \<open>while\<close> loop, with the two arrays, whose elements it updates in place, the two
  indices and the result so far as its state. After a payment one of the two remaining
  amounts is 0, so one of the indices moves: the loop ends.
\<close>

function simplifyLoop ::
  "party list \<Rightarrow> party list \<Rightarrow> nat \<Rightarrow> nat \<Rightarrow> settlement list \<Rightarrow> settlement list" where
  "simplifyLoop debtors creditors i j settlements =
     (if i < length debtors \<and> j < length creditors then
        if min (c_amount (debtors ! i)) (c_amount (creditors ! j)) > 1 / 100 then
          simplifyLoop
            (debtors[i := (debtors ! i)\<lparr>c_amount :=
               c_amount (debtors ! i) - min (c_amount (debtors ! i)) (c_amount (creditors ! j))\<rparr>])
            (creditors[j := (creditors ! j)\<lparr>c_amount :=
               c_amount (creditors ! j) - min (c_amount (debtors ! i)) (c_amount (creditors ! j))\<rparr>])
            (if c_amount (debtors ! i) - min (c_amount (debtors ! i)) (c_amount (creditors ! j))
                  \<le> 1 / 100 then i + 1 else i)
            (if c_amount (creditors ! j) - min (c_amount (debtors ! i)) (c_amount (creditors ! j))
                  \<le> 1 / 100 then j + 1 else j)
            (settlements @ [\<lparr>fromId = c_id (debtors ! i), toId = c_id (creditors ! j),
               s_amount = min (c_amount (debtors ! i)) (c_amount (creditors ! j))\<rparr>])
        else settlements
      else settlements)"
  by pat_completeness auto
termination
  by (relation "measure (\<lambda>(debtors, creditors, i, j, settlements).
         (length debtors - i) + (length creditors - j))")
     (auto simp: min_def split: if_splits)

declare simplifyLoop.simps [simp del]

definition calculateSimplifiedDebts :: "balances \<Rightarrow> settlement list" where
  "calculateSimplifiedDebts netBalances =
     (let (creditors, debtors) = partitionLoop netBalances [] []
      in simplifyLoop (sortDescending debtors) (sortDescending creditors) 0 0 [])"


section \<open>Reference definitions\<close>




text \<open>An amount with no fraction of a cent.\<close>

definition wholeCents :: "rat \<Rightarrow> bool" where
  "wholeCents x \<longleftrightarrow> of_int \<lfloor>x * 100\<rfloor> = x * 100"

text \<open>Truncation to two decimals, toward zero.\<close>

definition truncate2 :: "rat \<Rightarrow> rat" where
  "truncate2 x = (if x < 0 then - (of_int \<lfloor>(- x) * 100\<rfloor> / 100) else of_int \<lfloor>x * 100\<rfloor> / 100)"





text \<open>
  The debt simplifier in the specification's words. Step 1, the partition: creditors are
  the ids with a balance above 0.01, debtors those with a balance below -0.01, each with
  the magnitude of the balance.
\<close>

definition creditorsOf :: "balances \<Rightarrow> party list" where
  "creditorsOf bs = [\<lparr>c_id = k, c_amount = b\<rparr>. (k, Num b) \<leftarrow> bs, b > 1 / 100]"

definition debtorsOf :: "balances \<Rightarrow> party list" where
  "debtorsOf bs = [\<lparr>c_id = k, c_amount = - b\<rparr>. (k, Num b) \<leftarrow> bs, b < - (1 / 100)]"

text \<open>
  Step 3, the walk over the two sorted lists: the heads are the current debtor and the
  current creditor, with their remaining magnitudes; the transfer is the smaller of the
  two; a head is dropped once what remains of it is at most 0.01; the walk ends when a
  list is exhausted or the transfer would be at most 0.01.
\<close>

function walk :: "party list \<Rightarrow> party list \<Rightarrow> settlement list" where
  "walk [] cs = []"
| "walk (d # ds) [] = []"
| "walk (d # ds) (c # cs) =
     (if min (c_amount d) (c_amount c) > 1 / 100 then
        \<lparr>fromId = c_id d, toId = c_id c, s_amount = min (c_amount d) (c_amount c)\<rparr>
        # walk (if c_amount d - min (c_amount d) (c_amount c) \<le> 1 / 100 then ds
                else d\<lparr>c_amount := c_amount d - min (c_amount d) (c_amount c)\<rparr> # ds)
               (if c_amount c - min (c_amount d) (c_amount c) \<le> 1 / 100 then cs
                else c\<lparr>c_amount := c_amount c - min (c_amount d) (c_amount c)\<rparr> # cs)
      else [])"
  by pat_completeness auto
termination
  by (relation "measure (\<lambda>(ds, cs). length ds + length cs)")
     (auto simp: min_def split: if_splits)

declare walk.simps(3) [simp del]

text \<open>What a person pays and receives over a list of transfers.\<close>

definition paidBy :: "settlement list \<Rightarrow> string \<Rightarrow> rat" where
  "paidBy ts k = sum_list (map s_amount (filter (\<lambda>t. fromId t = k) ts))"

definition receivedBy :: "settlement list \<Rightarrow> string \<Rightarrow> rat" where
  "receivedBy ts k = sum_list (map s_amount (filter (\<lambda>t. toId t = k) ts))"



text \<open>
  Executing a transfer the way the specification words it: the amount is subtracted from
  the balance of \<open>fromId\<close> and added to that of \<open>toId\<close>. This is what the
  application does when a suggestion is recorded as paid (\<open>settlementStep\<close> with the
  payer \<open>fromId\<close> and the single split \<open>(toId, amount)\<close>).
\<close>

definition executeAsStated :: "balances \<Rightarrow> settlement \<Rightarrow> balances" where
  "executeAsStated b t =
     (let b = AList.update (fromId t) (jssub (readBalance b (fromId t)) (s_amount t)) b;
          b = AList.update (toId t) (jsadd (readBalance b (toId t)) (s_amount t)) b
      in b)"



text \<open>A balance map whose values are all numbers and add up to 0.\<close>

definition numberOr0 :: "jsnum \<Rightarrow> rat" where
  "numberOr0 v = (case v of Num b \<Rightarrow> b | NaN \<Rightarrow> 0)"

definition zeroSum :: "balances \<Rightarrow> bool" where
  "zeroSum bs \<longleftrightarrow> NaN \<notin> set (map snd bs) \<and> sum_list (map (\<lambda>(k, v). numberOr0 v) bs) = 0"


text \<open>The sum of the numeric balances of a map, and the maps without \<open>NaN\<close>.\<close>

definition balanceTotal :: "balances \<Rightarrow> rat" where
  "balanceTotal b = sum_list (map (\<lambda>(k, v). numberOr0 v) b)"

definition allNumbers :: "balances \<Rightarrow> bool" where
  "allNumbers b \<longleftrightarrow> NaN \<notin> set (map snd b)"

text \<open>The ids an entry touches: none when the loop skips it.\<close>

definition referencedIds :: "expense \<Rightarrow> string set" where
  "referencedIds entry =
     (if e_payerId entry = [] \<or> e_participantSplits entry = [] then {}
      else insert (e_payerId entry) (personId ` set (e_participantSplits entry)))"

text \<open>A balance as the lazy initialisation sees it: 0 for a key not yet in the map.\<close>

definition balanceOrZero :: "balances \<Rightarrow> string \<Rightarrow> jsnum" where
  "balanceOrZero b k = (case map_of b k of None \<Rightarrow> Num 0 | Some v \<Rightarrow> v)"



definition emptyForm :: expense_form where
  "emptyForm = \<lparr>f_description = ''Dinner'', f_amount = Num 10, f_date = ''2024-01-05'',
     f_payerId = ''A'', f_groupId = [], f_category = ''Food'', f_notes = [],
     f_splitType = ''equal'', f_participantIds = []\<rparr>"

definition exampleBalances :: balances where
  "exampleBalances = [(''A'', Num 50), (''B'', Num (- 30)), (''C'', Num (- 20))]"


definition personA :: person where
  "personA = \<lparr>p_id = ''A'', p_name = ''Asha'', p_contact = [], p_notes = [], p_isYou = True\<rparr>"

definition personB :: person where
  "personB = \<lparr>p_id = ''B'', p_name = ''Bilal'', p_contact = [], p_notes = [], p_isYou = False\<rparr>"

definition personC :: person where
  "personC = \<lparr>p_id = ''C'', p_name = ''Chen'', p_contact = [], p_notes = [], p_isYou = False\<rparr>"

text \<open>An expense of 60 paid by A and split three ways.\<close>

definition dinner :: expense where
  "dinner = \<lparr>e_description = ''Dinner'', e_amount = 60, e_date = ''2024-01-05'',
     e_payerId = ''A'',
     e_participantSplits = [\<lparr>personId = ''A'', amount = 20\<rparr>, \<lparr>personId = ''B'', amount = 20\<rparr>,
                            \<lparr>personId = ''C'', amount = 20\<rparr>],
     e_groupId = [], e_category = ''Food'', e_notes = [], e_type = ''expense''\<rparr>"

text \<open>The settlement entry that "Settle Up" records when B pays A 20.\<close>

definition repayment :: expense where
  "repayment = \<lparr>e_description = ''Settlement: Bilal paid Asha'', e_amount = 20,
     e_date = ''2024-01-06'', e_payerId = ''B'',
     e_participantSplits = [\<lparr>personId = ''A'', amount = 20\<rparr>],
     e_groupId = [], e_category = ''Settlement'', e_notes = [], e_type = ''settlement''\<rparr>"

text \<open>The same transfer entered as an ordinary expense: B paid 20 for A.\<close>

definition treat :: expense where
  "treat = repayment\<lparr>e_description := ''Coffee'', e_category := ''Food'', e_type := ''expense''\<rparr>"

section \<open>Rounding to cents\<close>



lemma wholeCents_iff: "wholeCents x \<longleftrightarrow> (\<exists>k. x = of_int k / 100)"
proof
  assume w: "wholeCents x"
  have "x = (x * 100) / 100" by simp
  also have "\<dots> = of_int \<lfloor>x * 100\<rfloor> / 100"
    using w unfolding wholeCents_def by (simp only:)
  finally show "\<exists>k. x = of_int k / 100" ..
next
  assume "\<exists>k. x = of_int k / 100"
  then obtain k where "x = of_int k / 100" ..
  then have "x * 100 = of_int k" by simp
  then show "wholeCents x" unfolding wholeCents_def by (simp only: floor_of_int)
qed

lemma wholeCents_toFixed2 [simp]: "wholeCents (toFixed2 x)"
  unfolding wholeCents_iff toFixed2_def
  by (metis of_int_minus minus_divide_left)





lemma wholeCents_0 [simp]: "wholeCents 0"
  by (simp add: wholeCents_def)


lemma wholeCents_truncate2 [simp]: "wholeCents (truncate2 x)"
  unfolding wholeCents_iff truncate2_def
  by (metis of_int_minus minus_divide_left)

section \<open>The loops of \<open>computeSplits\<close>\<close>
















section \<open>Conservation\<close>



section \<open>Equal mode\<close>




section \<open>Percent mode\<close>




section \<open>No participants\<close>

text \<open>
  Claim C9, as the specification states it, has \<open>computeSplits\<close> fail on an empty
  participant list. In equal mode it succeeds, with no splits.
\<close>

theorem empty_participants_counterexample:
  "computeSplits (\<lambda>_. None) 10 [] ''equal'' = Inr []"
  by code_simp

text \<open>
  Claim C9, amended. The empty selection is refused by the submit handler, before it
  calls \<open>computeSplits\<close>: with no participant selected the handler ends in one of its
  own errors, "Select at least one participant." once the checks before it pass.
  \<open>computeSplits\<close> itself has no such check: on an empty list it succeeds with no
  splits in equal mode (and in exact mode when the total is within 0.01 of 0), and fails
  with the mode's own error otherwise.
\<close>

theorem empty_participants:
  "computeSplits doc totalAmount [] splitType =
     (if splitType = ''equal'' then Inr []
      else if splitType = ''exact'' then
        (if \<bar>totalAmount\<bar> > 1 / 100 then Inl (SumMismatch 0 totalAmount) else Inr [])
      else if splitType = ''percent'' then Inl (PercentOutOfRange 0)
      else if splitType = ''shares'' then Inl ZeroShares
      else Inl UnknownSplitType)
   \<and> (f_participantIds form = [] \<longrightarrow>
        upsertExpenseFromForm doc form =
          Inl (if trim (f_description form) = [] then DescriptionEmpty
               else if \<not> jsgt (f_amount form) 0 then AmountNotPositive
               else if f_date form = [] then DateMissing
               else if f_payerId form = [] then PayerMissing
               else NoParticipants))"
proof (intro conjI impI)
  show "computeSplits doc totalAmount [] splitType =
     (if splitType = ''equal'' then Inr []
      else if splitType = ''exact'' then
        (if \<bar>totalAmount\<bar> > 1 / 100 then Inl (SumMismatch 0 totalAmount) else Inr [])
      else if splitType = ''percent'' then Inl (PercentOutOfRange 0)
      else if splitType = ''shares'' then Inl ZeroShares
      else Inl UnknownSplitType)"
    by (simp add: computeSplits_def equalSplits_def)
next
  assume "f_participantIds form = []"
  then show "upsertExpenseFromForm doc form =
          Inl (if trim (f_description form) = [] then DescriptionEmpty
               else if \<not> jsgt (f_amount form) 0 then AmountNotPositive
               else if f_date form = [] then DateMissing
               else if f_payerId form = [] then PayerMissing
               else NoParticipants)"
    by (cases "f_amount form") (simp_all add: upsertExpenseFromForm_def Let_def)
qed

theorem empty_participants_witness:
  "f_participantIds emptyForm = []
   \<and> upsertExpenseFromForm (\<lambda>_. None) emptyForm = Inl NoParticipants"
proof -
  have h: "f_participantIds emptyForm = []" by (simp add: emptyForm_def)
  have c: "(if trim (f_description emptyForm) = [] then DescriptionEmpty
               else if \<not> jsgt (f_amount emptyForm) 0 then AmountNotPositive
               else if f_date emptyForm = [] then DateMissing
               else if f_payerId emptyForm = [] then PayerMissing
               else NoParticipants) = NoParticipants"
    by code_simp
  show ?thesis
    using empty_participants[of "\<lambda>_. None" 0 "''equal''" emptyForm] h c by simp
qed

section \<open>The loop of \<open>calculateSimplifiedDebts\<close>\<close>

lemma partitionLoop_eq:
  "partitionLoop bs creditors debtors = (creditors @ creditorsOf bs, debtors @ debtorsOf bs)"
  by (induction bs creditors debtors rule: partitionLoop.induct)
     (auto simp: creditorsOf_def debtorsOf_def)

lemma simplifyLoop_exit:
  "\<not> (i < length ds \<and> j < length cs) \<Longrightarrow> simplifyLoop ds cs i j acc = acc"
  by (subst simplifyLoop.simps) (rule if_not_P)

lemma simplifyLoop_break:
  "\<not> min (c_amount (ds ! i)) (c_amount (cs ! j)) > 1 / 100 \<Longrightarrow> simplifyLoop ds cs i j acc = acc"
  by (subst simplifyLoop.simps) (simp only: if_False if_cancel)

lemma simplifyLoop_step:
  assumes "i < length ds \<and> j < length cs" "min (c_amount (ds ! i)) (c_amount (cs ! j)) > 1 / 100"
  shows "simplifyLoop ds cs i j acc =
          simplifyLoop
            (ds[i := (ds ! i)\<lparr>c_amount :=
               c_amount (ds ! i) - min (c_amount (ds ! i)) (c_amount (cs ! j))\<rparr>])
            (cs[j := (cs ! j)\<lparr>c_amount :=
               c_amount (cs ! j) - min (c_amount (ds ! i)) (c_amount (cs ! j))\<rparr>])
            (if c_amount (ds ! i) - min (c_amount (ds ! i)) (c_amount (cs ! j))
                  \<le> 1 / 100 then i + 1 else i)
            (if c_amount (cs ! j) - min (c_amount (ds ! i)) (c_amount (cs ! j))
                  \<le> 1 / 100 then j + 1 else j)
            (acc @ [\<lparr>fromId = c_id (ds ! i), toId = c_id (cs ! j),
               s_amount = min (c_amount (ds ! i)) (c_amount (cs ! j))\<rparr>])"
  by (subst simplifyLoop.simps) (simp only: assms if_True simp_thms)

lemma drop_update_here: "i < length xs \<Longrightarrow> drop i (xs[i := x]) = x # drop (Suc i) xs"
  by (simp add: upd_conv_take_nth_drop)

lemma simplifyLoop_walk:
  "simplifyLoop ds cs i j acc = acc @ walk (drop i ds) (drop j cs)"
proof (induction ds cs i j acc rule: simplifyLoop.induct)
  case (1 ds cs i j acc)
  show ?case
  proof (cases "i < length ds \<and> j < length cs")
    case False
    then have "drop i ds = [] \<or> drop j cs = []" by auto
    then have "walk (drop i ds) (drop j cs) = []" by (cases "drop i ds") auto
    then show ?thesis using simplifyLoop_exit[OF False] by simp
  next
    case True
    then have di: "drop i ds = ds ! i # drop (Suc i) ds" and dj: "drop j cs = cs ! j # drop (Suc j) cs"
      by (simp_all add: Cons_nth_drop_Suc)
    show ?thesis
    proof (cases "min (c_amount (ds ! i)) (c_amount (cs ! j)) > 1 / 100")
      case False
      then show ?thesis using simplifyLoop_break[OF False] di dj by (simp add: walk.simps(3))
    next
      case pay: True
      have ui: "drop i (ds[i := x]) = x # drop (Suc i) ds" for x
        using True by (simp add: drop_update_here)
      have uj: "drop j (cs[j := x]) = x # drop (Suc j) cs" for x
        using True by (simp add: drop_update_here)
      show ?thesis
        unfolding simplifyLoop_step[OF True pay] "1.IH"[OF True pay] di dj walk.simps(3)[of "ds ! i" _ "cs ! j"]
        using pay by (simp add: ui uj)
    qed
  qed
qed

lemma calculateSimplifiedDebts_walk:
  "calculateSimplifiedDebts bs = walk (sortDescending (debtorsOf bs)) (sortDescending (creditorsOf bs))"
  by (simp add: calculateSimplifiedDebts_def partitionLoop_eq simplifyLoop_walk)

lemma walk_Cons:
  "walk (d # ds) (c # cs) =
     (if min (c_amount d) (c_amount c) > 1 / 100 then
        \<lparr>fromId = c_id d, toId = c_id c, s_amount = min (c_amount d) (c_amount c)\<rparr>
        # walk (if c_amount d - min (c_amount d) (c_amount c) \<le> 1 / 100 then ds
                else d\<lparr>c_amount := c_amount d - min (c_amount d) (c_amount c)\<rparr> # ds)
               (if c_amount c - min (c_amount d) (c_amount c) \<le> 1 / 100 then cs
                else c\<lparr>c_amount := c_amount c - min (c_amount d) (c_amount c)\<rparr> # cs)
      else [])"
  by (rule walk.simps(3))

lemma walk_amount: "t \<in> set (walk ds cs) \<Longrightarrow> s_amount t > 1 / 100"
proof (induction ds cs rule: walk.induct)
  case (3 d ds c cs)
  show ?case
  proof (cases "min (c_amount d) (c_amount c) > 1 / 100")
    case True
    with 3 show ?thesis by (auto simp: walk_Cons)
  next
    case False
    with 3 show ?thesis by (simp add: walk_Cons)
  qed
qed simp_all

lemma walk_ids:
  "t \<in> set (walk ds cs) \<Longrightarrow> fromId t \<in> c_id ` set ds \<and> toId t \<in> c_id ` set cs"
proof (induction ds cs rule: walk.induct)
  case (3 d ds c cs)
  show ?case
  proof (cases "min (c_amount d) (c_amount c) > 1 / 100")
    case True
    from "3.prems" True have
      "t = \<lparr>fromId = c_id d, toId = c_id c, s_amount = min (c_amount d) (c_amount c)\<rparr>
       \<or> t \<in> set (walk (if c_amount d - min (c_amount d) (c_amount c) \<le> 1 / 100 then ds
                else d\<lparr>c_amount := c_amount d - min (c_amount d) (c_amount c)\<rparr> # ds)
               (if c_amount c - min (c_amount d) (c_amount c) \<le> 1 / 100 then cs
                else c\<lparr>c_amount := c_amount c - min (c_amount d) (c_amount c)\<rparr> # cs))"
      by (simp add: walk_Cons)
    then show ?thesis
    proof
      assume "t = \<lparr>fromId = c_id d, toId = c_id c, s_amount = min (c_amount d) (c_amount c)\<rparr>"
      then show ?thesis by simp
    next
      assume "t \<in> set (walk (if c_amount d - min (c_amount d) (c_amount c) \<le> 1 / 100 then ds
                else d\<lparr>c_amount := c_amount d - min (c_amount d) (c_amount c)\<rparr> # ds)
               (if c_amount c - min (c_amount d) (c_amount c) \<le> 1 / 100 then cs
                else c\<lparr>c_amount := c_amount c - min (c_amount d) (c_amount c)\<rparr> # cs))"
      from "3.IH"[OF True this] show ?thesis by (auto split: if_splits)
    qed
  next
    case False
    with 3 show ?thesis by (simp add: walk_Cons)
  qed
qed simp_all

lemma set_sortDescending [simp]: "set (sortDescending xs) = set xs"
  by (simp add: sortDescending_def)

lemma creditorsOf_Nil [simp]: "creditorsOf [] = []"
  by (simp add: creditorsOf_def)

lemma creditorsOf_Cons [simp]:
  "creditorsOf ((k, v) # bs) =
     (case v of Num b \<Rightarrow> if b > 1 / 100 then [\<lparr>c_id = k, c_amount = b\<rparr>] else [] | NaN \<Rightarrow> [])
     @ creditorsOf bs"
  by (simp add: creditorsOf_def split: jsnum.split)

lemma debtorsOf_Nil [simp]: "debtorsOf [] = []"
  by (simp add: debtorsOf_def)

lemma debtorsOf_Cons [simp]:
  "debtorsOf ((k, v) # bs) =
     (case v of Num b \<Rightarrow> if b < - (1 / 100) then [\<lparr>c_id = k, c_amount = - b\<rparr>] else [] | NaN \<Rightarrow> [])
     @ debtorsOf bs"
  by (simp add: debtorsOf_def split: jsnum.split)

lemma set_creditorsOf:
  "p \<in> set (creditorsOf bs) \<longleftrightarrow> (c_id p, Num (c_amount p)) \<in> set bs \<and> c_amount p > 1 / 100"
  by (induction bs) (auto split: jsnum.splits)

lemma set_debtorsOf:
  "p \<in> set (debtorsOf bs) \<longleftrightarrow> (c_id p, Num (- c_amount p)) \<in> set bs \<and> c_amount p > 1 / 100"
  by (induction bs) (auto split: jsnum.splits)

lemma distinct_keys_unique:
  "distinct (map fst bs) \<Longrightarrow> (k, v) \<in> set bs \<Longrightarrow> (k, w) \<in> set bs \<Longrightarrow> v = w"
  by (meson eq_key_imp_eq_value)

section \<open>The shape of the simplifier\<close>


section \<open>Every transfer is a real payment\<close>

text \<open>
  Claim C10. For a balance map (an object, so no key occurs twice), every transfer the
  simplifier emits has an amount above 0.01 and goes from one person to a different one.
\<close>

theorem transfers_positive_and_between_two_people:
  assumes "distinct (map fst netBalances)"
    and "t \<in> set (calculateSimplifiedDebts netBalances)"
  shows "s_amount t > 1 / 100 \<and> fromId t \<noteq> toId t"
proof -
  have t: "t \<in> set (walk (sortDescending (debtorsOf netBalances))
                          (sortDescending (creditorsOf netBalances)))"
    using assms(2) by (simp add: calculateSimplifiedDebts_walk)
  from walk_ids[OF t] obtain b c where
    b: "(fromId t, Num b) \<in> set netBalances" "b < - (1 / 100)" and
    c: "(toId t, Num c) \<in> set netBalances" "c > 1 / 100"
    by (auto simp: set_creditorsOf set_debtorsOf)
  have "fromId t \<noteq> toId t"
  proof
    assume "fromId t = toId t"
    then have "Num b = Num c" using distinct_keys_unique[OF assms(1) b(1)] c(1) by simp
    then show False using b(2) c(2) by simp
  qed
  then show ?thesis using walk_amount[OF t] by simp
qed

theorem transfers_positive_and_between_two_people_witness:
  "distinct (map fst exampleBalances)
   \<and> \<lparr>fromId = ''B'', toId = ''A'', s_amount = 30\<rparr> \<in> set (calculateSimplifiedDebts exampleBalances)
   \<and> s_amount \<lparr>fromId = ''B'', toId = ''A'', s_amount = 30\<rparr> > 1 / 100
   \<and> fromId \<lparr>fromId = ''B'', toId = ''A'', s_amount = 30\<rparr>
       \<noteq> toId \<lparr>fromId = ''B'', toId = ''A'', s_amount = 30\<rparr>"
proof -
  have h1: "distinct (map fst exampleBalances)" by code_simp
  have h2: "\<lparr>fromId = ''B'', toId = ''A'', s_amount = 30\<rparr>
      \<in> set (calculateSimplifiedDebts exampleBalances)"
    by code_simp
  show ?thesis
    using transfers_positive_and_between_two_people[OF h1 h2] h1 h2 by blast
qed

section \<open>What carrying out the transfers achieves\<close>

lemma paidBy_Nil [simp]: "paidBy [] k = 0"
  by (simp add: paidBy_def)

lemma paidBy_Cons [simp]:
  "paidBy (t # ts) k = (if fromId t = k then s_amount t else 0) + paidBy ts k"
  by (simp add: paidBy_def)

lemma receivedBy_Nil [simp]: "receivedBy [] k = 0"
  by (simp add: receivedBy_def)

lemma receivedBy_Cons [simp]:
  "receivedBy (t # ts) k = (if toId t = k then s_amount t else 0) + receivedBy ts k"
  by (simp add: receivedBy_def)








lemma walk_stop:
  "\<not> min (c_amount d) (c_amount c) > 1 / 100 \<Longrightarrow> walk (d # ds) (c # cs) = []"
  by (simp add: walk_Cons)








lemma readBalance_update [simp]:
  "readBalance (AList.update k v b) k' = (if k' = k then v else readBalance b k')"
  by (simp add: readBalance_def update_conv')

lemma jssub_jsadd: "jssub x a = jsadd x (- a)"
  by (cases x) simp_all

lemma jsadd_jsadd [simp]: "jsadd (jsadd x a) b = jsadd x (a + b)"
  by (cases x) simp_all

lemma jsadd_0 [simp]: "jsadd x 0 = x"
  by (cases x) simp_all



























section \<open>The balance aggregator\<close>

lemma readBalance_initIfNull:
  "readBalance (initIfNull b k) k' = (if k' = k then balanceOrZero b k else readBalance b k')"
  by (auto simp: initIfNull_def balanceOrZero_def readBalance_def update_conv' split: option.splits)

lemma balanceOrZero_update:
  "balanceOrZero (AList.update k v b) k' = (if k' = k then v else balanceOrZero b k')"
  by (simp add: balanceOrZero_def update_conv')

lemma expenseStep_read:
  "readBalance (expenseStep payer b ps) k =
     (if k = payer \<or> k = personId ps
      then jsadd (balanceOrZero b k)
             ((if k = payer then amount ps else 0) - (if k = personId ps then amount ps else 0))
      else readBalance b k)"
  by (auto simp: expenseStep_def Let_def readBalance_initIfNull balanceOrZero_update jssub_jsadd
        balanceOrZero_def initIfNull_def update_conv' readBalance_def split: option.splits)

lemma settlementStep_read:
  "readBalance (settlementStep payer b ps) k =
     (if k = payer
      then jsadd (readBalance b k) ((if k = personId ps then amount ps else 0) - amount ps)
      else if k = personId ps then jsadd (balanceOrZero b k) (amount ps)
      else readBalance b k)"
  by (auto simp: settlementStep_def Let_def readBalance_initIfNull balanceOrZero_update jssub_jsadd
        balanceOrZero_def initIfNull_def update_conv' readBalance_def split: option.splits)
lemma balanceTotal_update:
  "balanceTotal (AList.update k v b) =
     balanceTotal b - (case map_of b k of None \<Rightarrow> 0 | Some w \<Rightarrow> numberOr0 w) + numberOr0 v"
  by (induction b) (auto simp: balanceTotal_def)

lemma values_update: "snd ` set (AList.update k v b) \<subseteq> insert v (snd ` set b)"
  by (induction b) auto

lemma allNumbers_update: "allNumbers b \<Longrightarrow> v \<noteq> NaN \<Longrightarrow> allNumbers (AList.update k v b)"
  using values_update[of k v b] by (auto simp: allNumbers_def)

lemma keys_update: "fst ` set (AList.update k v b) = insert k (fst ` set b)"
  by (simp add: dom_update)

lemma allNumbers_read:
  assumes "allNumbers b" "k \<in> fst ` set b"
  obtains x where "map_of b k = Some (Num x)" "readBalance b k = Num x"
proof -
  from assms(2) obtain v where v: "map_of b k = Some v"
    by (metis domD dom_map_of_conv_image_fst)
  then have "(k, v) \<in> set b" by (rule map_of_SomeD)
  then have "v \<noteq> NaN" using assms(1) by (force simp: allNumbers_def)
  then obtain x where "v = Num x" by (cases v) auto
  then show ?thesis using that v by (simp add: readBalance_def)
qed

lemma initIfNull_props:
  assumes "allNumbers b"
  shows "allNumbers (initIfNull b k)" "balanceTotal (initIfNull b k) = balanceTotal b"
    "fst ` set (initIfNull b k) = insert k (fst ` set b)"
proof -
  show "allNumbers (initIfNull b k)"
    using assms by (simp add: initIfNull_def allNumbers_update)
  show "balanceTotal (initIfNull b k) = balanceTotal b"
    by (simp add: initIfNull_def balanceTotal_update numberOr0_def)
  show "fst ` set (initIfNull b k) = insert k (fst ` set b)"
    by (auto simp: initIfNull_def keys_update map_of_eq_None_iff)
qed

text \<open>Adding \<open>d\<close> to the balance of a key that has one.\<close>

lemma adjust_props:
  assumes "allNumbers b" "k \<in> fst ` set b"
  shows "allNumbers (AList.update k (jsadd (readBalance b k) d) b)"
    "balanceTotal (AList.update k (jsadd (readBalance b k) d) b) = balanceTotal b + d"
    "fst ` set (AList.update k (jsadd (readBalance b k) d) b) = fst ` set b"
proof -
  from allNumbers_read[OF assms] obtain x where
    x: "map_of b k = Some (Num x)" "readBalance b k = Num x" by blast
  show "allNumbers (AList.update k (jsadd (readBalance b k) d) b)"
    using assms(1) by (simp add: x allNumbers_update)
  show "balanceTotal (AList.update k (jsadd (readBalance b k) d) b) = balanceTotal b + d"
    by (simp add: balanceTotal_update x numberOr0_def)
  show "fst ` set (AList.update k (jsadd (readBalance b k) d) b) = fst ` set b"
    using assms(2) by (auto simp: keys_update)
qed

lemma expenseStep_props:
  assumes "allNumbers b"
  shows "allNumbers (expenseStep payer b ps)"
    "balanceTotal (expenseStep payer b ps) = balanceTotal b"
    "fst ` set (expenseStep payer b ps) = insert payer (insert (personId ps) (fst ` set b))"
proof -
  define b1 where "b1 = initIfNull b (personId ps)"
  define b2 where "b2 = AList.update (personId ps) (jsadd (readBalance b1 (personId ps)) (- amount ps)) b1"
  define b3 where "b3 = initIfNull b2 payer"
  define b4 where "b4 = AList.update payer (jsadd (readBalance b3 payer) (amount ps)) b3"
  have e: "expenseStep payer b ps = b4"
    by (simp add: expenseStep_def Let_def b1_def b2_def b3_def b4_def jssub_jsadd)
  note p1 = initIfNull_props[OF assms, of "personId ps", folded b1_def]
  have k1: "personId ps \<in> fst ` set b1" using p1(3) by simp
  note p2 = adjust_props[OF p1(1) k1, of "- amount ps", folded b2_def]
  note p3 = initIfNull_props[OF p2(1), of payer, folded b3_def]
  have k3: "payer \<in> fst ` set b3" using p3(3) by simp
  note p4 = adjust_props[OF p3(1) k3, of "amount ps", folded b4_def]
  show "allNumbers (expenseStep payer b ps)" unfolding e by (rule p4(1))
  show "balanceTotal (expenseStep payer b ps) = balanceTotal b"
    unfolding e p4(2) p3(2) p2(2) p1(2) by simp
  show "fst ` set (expenseStep payer b ps) = insert payer (insert (personId ps) (fst ` set b))"
    unfolding e p4(3) p3(3) p2(3) p1(3) by simp
qed

lemma settlementStep_props:
  assumes "allNumbers b" "payer \<in> fst ` set b"
  shows "allNumbers (settlementStep payer b ps)"
    "balanceTotal (settlementStep payer b ps) = balanceTotal b"
    "fst ` set (settlementStep payer b ps) = insert (personId ps) (fst ` set b)"
proof -
  define b1 where "b1 = AList.update payer (jsadd (readBalance b payer) (- amount ps)) b"
  define b2 where "b2 = initIfNull b1 (personId ps)"
  define b3 where "b3 = AList.update (personId ps) (jsadd (readBalance b2 (personId ps)) (amount ps)) b2"
  have e: "settlementStep payer b ps = b3"
    by (simp add: settlementStep_def Let_def b1_def b2_def b3_def jssub_jsadd)
  note p1 = adjust_props[OF assms, of "- amount ps", folded b1_def]
  note p2 = initIfNull_props[OF p1(1), of "personId ps", folded b2_def]
  have k2: "personId ps \<in> fst ` set b2" using p2(3) by simp
  note p3 = adjust_props[OF p2(1) k2, of "amount ps", folded b3_def]
  show "allNumbers (settlementStep payer b ps)" unfolding e by (rule p3(1))
  show "balanceTotal (settlementStep payer b ps) = balanceTotal b"
    unfolding e p3(2) p2(2) p1(2) by simp
  show "fst ` set (settlementStep payer b ps) = insert (personId ps) (fst ` set b)"
    unfolding e p3(3) p2(3) p1(3) by simp
qed
lemma keys_initIfNull: "fst ` set (initIfNull b k) = insert k (fst ` set b)"
  by (auto simp: initIfNull_def keys_update map_of_eq_None_iff)

lemma keys_expenseStep:
  "fst ` set (expenseStep payer b ps) = insert payer (insert (personId ps) (fst ` set b))"
  by (auto simp: expenseStep_def Let_def keys_update keys_initIfNull)

lemma keys_settlementStep:
  "fst ` set (settlementStep payer b ps) = insert payer (insert (personId ps) (fst ` set b))"
  by (auto simp: settlementStep_def Let_def keys_update keys_initIfNull)

lemma keys_foldl_expenseStep:
  "splits \<noteq> [] \<Longrightarrow>
   fst ` set (foldl (expenseStep payer) b splits) = insert payer (personId ` set splits \<union> fst ` set b)"
proof (induction splits arbitrary: b)
  case Nil
  then show ?case by simp
next
  case (Cons ps rest)
  then show ?case by (cases "rest = []") (auto simp: keys_expenseStep)
qed

lemma keys_foldl_settlementStep:
  "splits \<noteq> [] \<Longrightarrow>
   fst ` set (foldl (settlementStep payer) b splits) = insert payer (personId ` set splits \<union> fst ` set b)"
proof (induction splits arbitrary: b)
  case Nil
  then show ?case by simp
next
  case (Cons ps rest)
  then show ?case by (cases "rest = []") (auto simp: keys_settlementStep)
qed

lemma keys_applyEntry: "fst ` set (applyEntry b entry) = referencedIds entry \<union> fst ` set b"
  by (simp add: applyEntry_def referencedIds_def keys_foldl_expenseStep keys_foldl_settlementStep)

lemma keys_foldl_applyEntry:
  "fst ` set (foldl applyEntry b expenses) = (\<Union>entry \<in> set expenses. referencedIds entry) \<union> fst ` set b"
  by (induction expenses arbitrary: b) (auto simp: keys_applyEntry)

lemma distinct_initIfNull: "distinct (map fst b) \<Longrightarrow> distinct (map fst (initIfNull b k))"
  by (simp add: initIfNull_def distinct_update)

lemma distinct_expenseStep: "distinct (map fst b) \<Longrightarrow> distinct (map fst (expenseStep payer b ps))"
  by (simp add: expenseStep_def Let_def distinct_update distinct_initIfNull)

lemma distinct_settlementStep:
  "distinct (map fst b) \<Longrightarrow> distinct (map fst (settlementStep payer b ps))"
  by (simp add: settlementStep_def Let_def distinct_update distinct_initIfNull)

lemma distinct_applyEntry: "distinct (map fst b) \<Longrightarrow> distinct (map fst (applyEntry b entry))"
proof -
  have e: "distinct (map fst b) \<Longrightarrow> distinct (map fst (foldl (expenseStep payer) b splits))"
    for payer splits b
    by (induction splits arbitrary: b) (auto simp: distinct_expenseStep)
  have s: "distinct (map fst b) \<Longrightarrow> distinct (map fst (foldl (settlementStep payer) b splits))"
    for payer splits b
    by (induction splits arbitrary: b) (auto simp: distinct_settlementStep)
  show "distinct (map fst b) \<Longrightarrow> distinct (map fst (applyEntry b entry))"
    by (simp add: applyEntry_def e s)
qed

lemma people_keys:
  "fst ` set (foldl (\<lambda>b p. AList.update (p_id p) (Num 0) b) b0 people)
     = p_id ` set people \<union> fst ` set b0"
  by (induction people arbitrary: b0) (auto simp: keys_update)

lemma people_values:
  "snd ` set (foldl (\<lambda>b p. AList.update (p_id p) (Num 0) b) b0 people)
     \<subseteq> insert (Num 0) (snd ` set b0)"
proof (induction people arbitrary: b0)
  case Nil
  then show ?case by auto
next
  case (Cons p ps)
  show ?case
    using Cons.IH[of "AList.update (p_id p) (Num 0) b0"] values_update[of "p_id p" "Num 0" b0]
    by auto
qed

lemma people_distinct:
  "distinct (map fst b0) \<Longrightarrow>
   distinct (map fst (foldl (\<lambda>b p. AList.update (p_id p) (Num 0) b) b0 people))"
  by (induction people arbitrary: b0) (auto simp: distinct_update)

lemma people_zero:
  "allNumbers (foldl (\<lambda>b p. AList.update (p_id p) (Num 0) b) [] people)"
  "balanceTotal (foldl (\<lambda>b p. AList.update (p_id p) (Num 0) b) [] people) = 0"
proof -
  define b where "b = foldl (\<lambda>b p. AList.update (p_id p) (Num 0) b) [] people"
  have v: "snd ` set b \<subseteq> {Num 0}" unfolding b_def using people_values[of "[]" people] by simp
  then show "allNumbers b" by (auto simp: allNumbers_def)
  have "\<forall>kv \<in> set b. (\<lambda>(k, v). numberOr0 v) kv = 0"
    using v by (auto simp: numberOr0_def)
  then show "balanceTotal b = 0"
    unfolding balanceTotal_def by (simp add: sum_list_0 cong: map_cong)
qed

lemma netBalances_distinct: "distinct (map fst (calculateNetBalances people expenses))"
proof -
  have "distinct (map fst b) \<Longrightarrow> distinct (map fst (foldl applyEntry b expenses))" for b
    by (induction expenses arbitrary: b) (auto simp: distinct_applyEntry)
  then show ?thesis
    unfolding calculateNetBalances_def using people_distinct[of "[]" people] by simp
qed

lemma netBalances_keys:
  "fst ` set (calculateNetBalances people expenses)
     = p_id ` set people \<union> (\<Union>entry \<in> set expenses. referencedIds entry)"
  unfolding calculateNetBalances_def keys_foldl_applyEntry people_keys by auto

lemma foldl_expenseStep_props:
  "allNumbers b \<Longrightarrow>
   allNumbers (foldl (expenseStep payer) b splits)
   \<and> balanceTotal (foldl (expenseStep payer) b splits) = balanceTotal b"
  by (induction splits arbitrary: b) (auto simp: expenseStep_props)

lemma foldl_settlementStep_props:
  "allNumbers b \<Longrightarrow> payer \<in> fst ` set b \<Longrightarrow>
   allNumbers (foldl (settlementStep payer) b splits)
   \<and> balanceTotal (foldl (settlementStep payer) b splits) = balanceTotal b"
proof (induction splits arbitrary: b)
  case Nil
  then show ?case by simp
next
  case (Cons ps rest)
  have "payer \<in> fst ` set (settlementStep payer b ps)" by (simp add: keys_settlementStep)
  then show ?case
    using Cons.IH[of "settlementStep payer b ps"] Cons.prems
    by (simp add: settlementStep_props)
qed

lemma applyEntry_props:
  assumes "allNumbers b" "e_type entry = ''settlement'' \<longrightarrow> e_payerId entry \<in> fst ` set b"
  shows "allNumbers (applyEntry b entry) \<and> balanceTotal (applyEntry b entry) = balanceTotal b"
  using assms foldl_expenseStep_props[OF assms(1)] foldl_settlementStep_props[OF assms(1)]
  by (simp add: applyEntry_def)

lemma foldl_applyEntry_props:
  assumes "allNumbers b"
    and "\<forall>entry \<in> set expenses. e_type entry = ''settlement'' \<longrightarrow> e_payerId entry \<in> fst ` set b"
  shows "allNumbers (foldl applyEntry b expenses)
         \<and> balanceTotal (foldl applyEntry b expenses) = balanceTotal b"
  using assms
proof (induction expenses arbitrary: b)
  case Nil
  then show ?case by simp
next
  case (Cons entry rest)
  have a: "allNumbers (applyEntry b entry) \<and> balanceTotal (applyEntry b entry) = balanceTotal b"
    using Cons.prems by (intro applyEntry_props) auto
  have k: "fst ` set b \<subseteq> fst ` set (applyEntry b entry)" by (auto simp: keys_applyEntry)
  have "\<forall>x \<in> set rest. e_type x = ''settlement'' \<longrightarrow> e_payerId x \<in> fst ` set (applyEntry b entry)"
    using Cons.prems(2) k by auto
  with Cons.IH[of "applyEntry b entry"] a show ?case by simp
qed

text \<open>
  When the payer of every settlement entry is a known person, every balance is a number
  and the balances add up to 0. The key set and its distinctness need no such condition.
\<close>

lemma netBalances_zero_sum:
  assumes "\<forall>entry \<in> set expenses. e_type entry = ''settlement'' \<longrightarrow> e_payerId entry \<in> p_id ` set people"
  shows "zeroSum (calculateNetBalances people expenses)"
proof -
  define b0 where "b0 = foldl (\<lambda>b p. AList.update (p_id p) (Num 0) b) [] people"
  have k: "fst ` set b0 = p_id ` set people" unfolding b0_def people_keys by simp
  have "allNumbers (foldl applyEntry b0 expenses)
         \<and> balanceTotal (foldl applyEntry b0 expenses) = balanceTotal b0"
    using assms by (intro foldl_applyEntry_props) (simp_all add: b0_def people_zero k[unfolded b0_def])
  moreover have "balanceTotal b0 = 0" unfolding b0_def by (rule people_zero(2))
  ultimately show ?thesis
    unfolding calculateNetBalances_def b0_def[symmetric]
    by (simp add: zeroSum_def allNumbers_def balanceTotal_def)
qed

text \<open>
  Recording a suggested transfer as a settlement entry, payer \<open>fromId\<close> and single
  split \<open>(toId, amount)\<close>, changes the balances as the specification's wording of
  "executing" a transfer does.
\<close>

lemma executeAsStated_settlementStep:
  assumes "toId t \<in> fst ` set b"
  shows "executeAsStated b t
           = settlementStep (fromId t) b \<lparr>personId = toId t, amount = s_amount t\<rparr>"
proof -
  define b1 where "b1 = AList.update (fromId t) (jssub (readBalance b (fromId t)) (s_amount t)) b"
  have "toId t \<in> fst ` set b1" using assms by (simp add: b1_def keys_update)
  then have "map_of b1 (toId t) \<noteq> None" by (simp add: map_of_eq_None_iff)
  then have "initIfNull b1 (toId t) = b1" unfolding initIfNull_def by (rule if_not_P)
  then show ?thesis
    by (simp add: executeAsStated_def settlementStep_def Let_def b1_def)
qed

section \<open>The sign of a settlement\<close>

text \<open>
  Claim C3. The per-split rule is the one the code applies (\<open>expenseStep_read\<close>,
  \<open>settlementStep_read\<close>), and the first example holds: the expense of 60 paid by A
  gives A: +40, B: -20, C: -20. The second example does not: the settlement in which B
  pays A 20 takes B to -40 and A to +60, where the specification, and the source's own
  comment ("reduces their previous debts"), have B at 0 and A at +20. Subtracting from
  the payer of a settlement has the sign of a new debt, not of a repayment.
\<close>

theorem settlement_example:
  "calculateNetBalances [personA, personB, personC] [dinner]
     = [(''A'', Num 40), (''B'', Num (- 20)), (''C'', Num (- 20))]
   \<and> calculateNetBalances [personA, personB, personC] [dinner, repayment]
     = [(''A'', Num 60), (''B'', Num (- 40)), (''C'', Num (- 20))]
   \<and> calculateNetBalances [personA, personB, personC] [dinner, repayment]
     \<noteq> [(''A'', Num 20), (''B'', Num 0), (''C'', Num (- 20))]"
  by code_simp

section \<open>A settlement paid by a removed person\<close>

text \<open>
  Claim C4. The settlement branch subtracts from \<open>balances[payerId]\<close> without the
  initialisation that the expense branch performs. With A the only known person and the
  settlement entry of B, who has been removed, as the only entry, the balance of B is
  \<open>NaN\<close>. The same transfer entered as an ordinary expense gives B the number +20.
\<close>

theorem settlement_by_removed_person:
  "calculateNetBalances [personA] [repayment] = [(''A'', Num 20), (''B'', NaN)]
   \<and> calculateNetBalances [personA] [treat] = [(''A'', Num (- 20)), (''B'', Num 20)]"
  by code_simp

text \<open>
  Claim C5. On the same input the balances do not add up to 0: one of them is not a
  number. (\<open>netBalances_zero_sum\<close> shows that this is the only way to lose the
  invariant.)
\<close>

theorem settlement_by_removed_person_sum:
  "NaN \<in> set (map snd (calculateNetBalances [personA] [repayment]))
   \<and> \<not> zeroSum (calculateNetBalances [personA] [repayment])
   \<and> zeroSum (calculateNetBalances [personA] [treat])"
  by code_simp

end
